theory Spec2Isabelle
  imports Main
begin

section \<open>Strings\<close>

text \<open>
  Go strings are byte strings; they are modelled as \<open>string\<close> (lists of 8-bit characters).
  \<open>HasPrefix\<close>, \<open>Contains\<close> and \<open>TrimPrefix\<close> of Go's \<open>strings\<close> package work on the bytes
  and are written out. \<open>strings.ToLower\<close> works on the Unicode letters of a text (it
  folds \<open>A\<close> to \<open>Z\<close>, and also letters beyond ASCII, two of them to the ASCII letters
  \<open>k\<close> and \<open>i\<close>): it is a parameter, named \<open>ToLower\<close>, of every function that calls
  it, and what is proved of these functions holds for every lowering function.
\<close>

definition lower_char :: "char \<Rightarrow> char" where
  "lower_char c =
     (case map_of (zip ''ABCDEFGHIJKLMNOPQRSTUVWXYZ'' ''abcdefghijklmnopqrstuvwxyz'') c of
        Some l \<Rightarrow> l
      | None \<Rightarrow> c)"

text \<open>
  On a text made of ASCII characters only, \<open>strings.ToLower\<close> folds \<open>A\<close> to \<open>Z\<close> and
  changes nothing else. \<open>ascii_ToLower\<close> is that fold; the examples, whose texts are
  ASCII, run with it.
\<close>

definition ascii_ToLower :: "string \<Rightarrow> string" where
  "ascii_ToLower s = map lower_char s"

fun HasPrefix :: "string \<Rightarrow> string \<Rightarrow> bool" where
  "HasPrefix s [] = True"
| "HasPrefix [] (p # ps) = False"
| "HasPrefix (c # cs) (p # ps) = (c = p \<and> HasPrefix cs ps)"

fun Contains :: "string \<Rightarrow> string \<Rightarrow> bool" where
  "Contains [] substr = (substr = [])"
| "Contains (c # cs) substr = (HasPrefix (c # cs) substr \<or> Contains cs substr)"

definition TrimPrefix :: "string \<Rightarrow> string \<Rightarrow> string" where
  "TrimPrefix s p = (if HasPrefix s p then drop (length p) s else s)"


section \<open>Image references\<close>

text \<open>
  \<open>reference.Named\<close> of \<open>github.com/containers/image/v5/docker/reference\<close>: a repository
  (registry domain and path) with an optional tag and an optional digest. The Go type
  assertion \<open>ref.(reference.Tagged)\<close> succeeds exactly when a tag is present,
  \<open>ref.(reference.Digested)\<close> exactly when a digest is present.
\<close>

record named_ref =
  ref_domain :: string
  ref_path :: string
  ref_tag :: "string option"
  ref_digest :: "string option"

definition reference_Domain :: "named_ref \<Rightarrow> string" where
  "reference_Domain r = ref_domain r"

definition reference_Path :: "named_ref \<Rightarrow> string" where
  "reference_Path r = ref_path r"

definition is_Tagged :: "named_ref \<Rightarrow> bool" where
  "is_Tagged r = (ref_tag r \<noteq> None)"

definition is_Digested :: "named_ref \<Rightarrow> bool" where
  "is_Digested r = (ref_digest r \<noteq> None)"

text \<open>\<open>String()\<close> of a reference: \<open>domain/path[:tag][@digest]\<close>.\<close>

definition reference_String :: "named_ref \<Rightarrow> string" where
  "reference_String r =
     (if ref_domain r = [] then ref_path r else ref_domain r @ ''/'' @ ref_path r)
     @ (case ref_tag r of None \<Rightarrow> [] | Some t \<Rightarrow> '':'' @ t)
     @ (case ref_digest r of None \<Rightarrow> [] | Some d \<Rightarrow> ''@'' @ d)"

text \<open>
  \<open>reference.WithTag\<close>: refuses a tag that does not match \<open>[\w][\w.-]{0,127}\<close>, otherwise
  sets the tag and keeps repository and digest.
\<close>

definition word_char :: "char \<Rightarrow> bool" where
  "word_char c =
     (c \<in> set ''abcdefghijklmnopqrstuvwxyzABCDEFGHIJKLMNOPQRSTUVWXYZ0123456789_'')"

definition valid_tag :: "string \<Rightarrow> bool" where
  "valid_tag t =
     (case t of
        [] \<Rightarrow> False
      | c # cs \<Rightarrow> word_char c \<and> length cs \<le> 127
                 \<and> list_all (\<lambda>x. word_char x \<or> x = CHR ''.'' \<or> x = CHR ''-'') cs)"

definition WithTag :: "named_ref \<Rightarrow> string \<Rightarrow> string + named_ref" where
  "WithTag r t =
     (if \<not> valid_tag t then Inl ''invalid tag format''
      else Inr (r\<lparr>ref_tag := Some t\<rparr>))"

text \<open>
  \<open>reference.ParseNormalizedNamed\<close>. The library checks the string against its reference
  grammar and reads the fields off it. The grammar check is the parameter \<open>grammar\<close>,
  which yields the library's error for a string it refuses; the field extraction is
  written out: \<open>splitDockerDomain\<close> takes the text before the first \<open>/\<close> as registry
  domain when it looks like a host name and falls back to the default registry
  otherwise, the rest is \<open>path[:tag][@digest]\<close>. \<open>splitDockerDomain\<close> calls
  \<open>strings.ToLower\<close>, the parameter \<open>ToLower\<close>.
\<close>

definition defaultDomain :: string where
  "defaultDomain = ''docker.io''"

definition legacyDefaultDomain :: string where
  "legacyDefaultDomain = ''index.docker.io''"

definition officialRepoPrefix :: string where
  "officialRepoPrefix = ''library/''"

definition splitDockerDomain :: "(string \<Rightarrow> string) \<Rightarrow> string \<Rightarrow> string \<times> string" where
  "splitDockerDomain ToLower name =
     (let pre = takeWhile (\<lambda>c. c \<noteq> CHR ''/'') name;
          (dom, remainder) =
            (if CHR ''/'' \<notin> set name
                \<or> (CHR ''.'' \<notin> set pre \<and> CHR '':'' \<notin> set pre
                    \<and> pre \<noteq> ''localhost'' \<and> ToLower pre = pre)
             then (defaultDomain, name)
             else (pre, drop (length pre + 1) name));
          dom' = (if dom = legacyDefaultDomain then defaultDomain else dom);
          remainder' =
            (if dom' = defaultDomain \<and> CHR ''/'' \<notin> set remainder
             then officialRepoPrefix @ remainder
             else remainder)
      in (dom', remainder'))"

definition ParseNormalizedNamed ::
  "(string \<Rightarrow> string) \<Rightarrow> (string \<Rightarrow> string option) \<Rightarrow> string \<Rightarrow> string + named_ref" where
  "ParseNormalizedNamed ToLower grammar s =
     (case grammar s of
        Some err \<Rightarrow> Inl err
      | None \<Rightarrow>
          (let (dom, remainder) = splitDockerDomain ToLower s;
               name_tag = takeWhile (\<lambda>c. c \<noteq> CHR ''@'') remainder;
               dgst = drop (length name_tag + 1) remainder;
               p = takeWhile (\<lambda>c. c \<noteq> CHR '':'') name_tag;
               t = drop (length p + 1) name_tag
           in Inr \<lparr>ref_domain = dom, ref_path = p,
                    ref_tag = (if t = [] then None else Some t),
                    ref_digest = (if dgst = [] then None else Some dgst)\<rparr>))"


section \<open>Registry client\<close>

text \<open>
  The registry is reached through three calls of the containers/image library:
  \<open>docker.NewReference\<close>, \<open>NewImageSource\<close> and \<open>GetManifest\<close>. Together with the pure
  \<open>manifest.Digest\<close> they are the fields of the client: a client value stands for the
  system context and the state of the network during a run. \<open>GetManifest\<close> yields the
  manifest bytes and a second value, whatever else the transport reports about the
  manifest. Errors are their message texts.
\<close>

record ('i, 's) Client =
  NewReference :: "named_ref \<Rightarrow> string + 'i"
  NewImageSource :: "'i \<Rightarrow> string + 's"
  GetManifest :: "'s \<Rightarrow> string + (string \<times> string)"
  manifest_Digest :: "string \<Rightarrow> string + string"

text \<open>\<open>GetDigest\<close>, first part: the default tag is added when the reference has neither tag nor digest.\<close>

definition GetDigest_defaultTag :: "named_ref \<Rightarrow> string + named_ref" where
  "GetDigest_defaultTag r =
     (if \<not> is_Tagged r then
        (if \<not> is_Digested r then
           (case WithTag r ''latest'' of
              Inl err \<Rightarrow> Inl (''failed to add default tag: '' @ err)
            | Inr r' \<Rightarrow> Inr r')
         else Inr r)
      else Inr r)"

text \<open>\<open>GetDigest\<close>, second part: the manifest of the reference is fetched and its digest computed.\<close>

definition GetDigest_fetch :: "('i, 's) Client \<Rightarrow> named_ref \<Rightarrow> string + string" where
  "GetDigest_fetch c r =
     (case NewReference c r of
        Inl err \<Rightarrow> Inl (''failed to create docker reference: '' @ err)
      | Inr imgRef \<Rightarrow>
          (case NewImageSource c imgRef of
             Inl err \<Rightarrow>
               Inl (''failed to create image source for '' @ reference_String r @ '': '' @ err)
           | Inr imgSrc \<Rightarrow>
               (case GetManifest c imgSrc of
                  Inl err \<Rightarrow>
                    Inl (''failed to get manifest for '' @ reference_String r @ '': '' @ err)
                | Inr (manifestBytes, _) \<Rightarrow>
                    (case manifest_Digest c manifestBytes of
                       Inl err \<Rightarrow>
                         Inl (''failed to compute manifest digest for '' @ reference_String r
                              @ '': '' @ err)
                     | Inr d \<Rightarrow> Inr d))))"

definition GetDigest :: "('i, 's) Client \<Rightarrow> named_ref \<Rightarrow> string + string" where
  "GetDigest c r =
     (case GetDigest_defaultTag r of
        Inl err \<Rightarrow> Inl err
      | Inr r' \<Rightarrow> GetDigest_fetch c r')"

text \<open>
  \<open>IsNotFoundOrAuthError\<close>. A Go \<open>error\<close> is \<open>None\<close> when nil and otherwise carries the text
  of \<open>err.Error()\<close>. \<open>ToLower\<close> is \<open>strings.ToLower\<close>.
\<close>

definition IsNotFoundOrAuthError :: "(string \<Rightarrow> string) \<Rightarrow> string option \<Rightarrow> bool" where
  "IsNotFoundOrAuthError ToLower err =
     (case err of
        None \<Rightarrow> False
      | Some msg \<Rightarrow>
          (let errStr = ToLower msg in
             if Contains errStr ''401'' \<or> Contains errStr ''403'' \<or> Contains errStr ''404''
             then True
             else if Contains errStr ''manifest unknown''
                     \<or> Contains errStr ''not found''
                     \<or> Contains errStr ''unauthorized''
                     \<or> Contains errStr ''authentication required''
                     \<or> Contains errStr ''denied''
                     \<or> Contains errStr ''does not exist''
             then True
             else False))"


section \<open>Hardened-image mapping\<close>

datatype dhi_error = ErrNotEligible | ErrReference string

definition Registry :: string where
  "Registry = ''dhi.io''"

definition DockerHubDomain :: string where
  "DockerHubDomain = ''docker.io''"

definition LibraryPrefix :: string where
  "LibraryPrefix = ''library/''"

definition CanMapToDHI :: "named_ref \<Rightarrow> bool" where
  "CanMapToDHI r =
     (let dom = reference_Domain r; p = reference_Path r
      in if dom \<noteq> DockerHubDomain then False else HasPrefix p LibraryPrefix)"

definition MapToDHI ::
  "(string \<Rightarrow> string) \<Rightarrow> (string \<Rightarrow> string option) \<Rightarrow> named_ref
     \<Rightarrow> dhi_error + named_ref" where
  "MapToDHI ToLower grammar r =
     (if \<not> CanMapToDHI r then Inl ErrNotEligible
      else
        let p = reference_Path r;
            dhiPath = TrimPrefix p LibraryPrefix;
            dhiRefStr = Registry @ ''/'' @ dhiPath;
            dhiRefStr' = (case ref_tag r of None \<Rightarrow> dhiRefStr | Some t \<Rightarrow> dhiRefStr @ '':'' @ t)
        in (case ParseNormalizedNamed ToLower grammar dhiRefStr' of
              Inl err \<Rightarrow> Inl (ErrReference err)
            | Inr r' \<Rightarrow> Inr r'))"


section \<open>Policy document\<close>

text \<open>
  Modelled from the spec: the package \<open>internal/policy\<close> (\<open>policy.Policy\<close>,
  \<open>policy.NewPolicy\<close>, \<open>policy.AddPinRule\<close>) is not among the sources. A policy is the
  ordered list of its rules; a rule has a selector identifier (scheme and the reference
  as written), the action convert and the updated identifier, with the scheme
  \<open>docker-image://\<close> of the README. \<open>AddPinRule\<close> appends one rule.
\<close>

datatype PolicyAction = CONVERT

record PolicyRule =
  rule_action :: PolicyAction
  selector_identifier :: string
  updates_identifier :: string

type_synonym Policy = "PolicyRule list"

definition NewPolicy :: Policy where
  "NewPolicy = []"

definition image_scheme :: string where
  "image_scheme = ''docker-image://''"

definition AddPinRule :: "Policy \<Rightarrow> string \<Rightarrow> string \<Rightarrow> Policy" where
  "AddPinRule p original pinned =
     p @ [\<lparr>rule_action = CONVERT,
           selector_identifier = image_scheme @ original,
           updates_identifier = image_scheme @ pinned\<rparr>]"


section \<open>Pinning\<close>

text \<open>
  Modelled from the spec: \<open>dockerfile.ImageRef\<close> (the package \<open>internal/dockerfile\<close> is
  not among the sources) is the raw reference of the specification. Of its fields the
  two that \<open>GeneratePolicy\<close> reads are kept: the reference as written and its parsed form.
\<close>

record ImageRef =
  Original :: string
  Ref :: named_ref

text \<open>
  What a run of \<open>GeneratePolicy\<close> depends on: the Dockerfile parser applied to the files
  on disk (\<open>dockerfile.ParseFile\<close>, not among the sources), the registry client, and the
  library functions \<open>digest.Parse\<close> and \<open>reference.WithDigest\<close>.
\<close>

record ('i, 's) world =
  ParseFile :: "string \<Rightarrow> string + ImageRef list"
  registry_client :: "('i, 's) Client"
  digest_Parse :: "string \<Rightarrow> string + string"
  WithDigest :: "named_ref \<Rightarrow> string \<Rightarrow> string + named_ref"

text \<open>
  The variables of \<open>GeneratePolicy\<close>: the policy under construction and the map \<open>seen\<close>
  (a set: the map only ever stores true). \<open>st_calls\<close> is not in the source; it logs the
  references handed to \<open>client.GetDigest\<close>, in order.
\<close>

record pin_state =
  st_pol :: Policy
  st_seen :: "string set"
  st_calls :: "named_ref list"

text \<open>
  The body of the inner loop. The result is the state when the body ends and the error
  it returns with, if any.
\<close>

definition GeneratePolicy_body ::
  "('i, 's) world \<Rightarrow> pin_state \<Rightarrow> ImageRef \<Rightarrow> pin_state \<times> string option" where
  "GeneratePolicy_body w st r =
     (if Original r \<in> st_seen st then (st, None)
      else
        let st1 = st\<lparr>st_seen := insert (Original r) (st_seen st)\<rparr> in
        if is_Digested (Ref r) then (st1, None)
        else
          let st2 = st1\<lparr>st_calls := st_calls st1 @ [Ref r]\<rparr> in
          (case GetDigest (registry_client w) (Ref r) of
             Inl err \<Rightarrow>
               (st2, Some (''failed to get digest for '' @ Original r @ '': '' @ err))
           | Inr digestStr \<Rightarrow>
               (case digest_Parse w digestStr of
                  Inl err \<Rightarrow>
                    (st2, Some (''failed to parse digest '' @ digestStr @ '': '' @ err))
                | Inr d \<Rightarrow>
                    (case WithDigest w (Ref r) d of
                       Inl err \<Rightarrow>
                         (st2, Some (''failed to create pinned reference for '' @ Original r
                                     @ '': '' @ err))
                     | Inr pinnedRef \<Rightarrow>
                         (st2\<lparr>st_pol := AddPinRule (st_pol st2) (Original r)
                                            (reference_String pinnedRef)\<rparr>, None)))))"

text \<open>The inner loop, over the references of one Dockerfile.\<close>

fun GeneratePolicy_refs ::
  "('i, 's) world \<Rightarrow> pin_state \<Rightarrow> ImageRef list \<Rightarrow> pin_state \<times> string option" where
  "GeneratePolicy_refs w st [] = (st, None)"
| "GeneratePolicy_refs w st (r # rs) =
     (case GeneratePolicy_body w st r of
        (st', Some err) \<Rightarrow> (st', Some err)
      | (st', None) \<Rightarrow> GeneratePolicy_refs w st' rs)"

text \<open>The outer loop, over the Dockerfiles.\<close>

fun GeneratePolicy_files ::
  "('i, 's) world \<Rightarrow> pin_state \<Rightarrow> string list \<Rightarrow> pin_state \<times> string option" where
  "GeneratePolicy_files w st [] = (st, None)"
| "GeneratePolicy_files w st (dockerfilePath # fs) =
     (case ParseFile w dockerfilePath of
        Inl err \<Rightarrow> (st, Some (''failed to parse '' @ dockerfilePath @ '': '' @ err))
      | Inr refs \<Rightarrow>
          (case GeneratePolicy_refs w st refs of
             (st', Some err) \<Rightarrow> (st', Some err)
           | (st', None) \<Rightarrow> GeneratePolicy_files w st' fs))"

definition GeneratePolicy_init :: pin_state where
  "GeneratePolicy_init = \<lparr>st_pol = NewPolicy, st_seen = {}, st_calls = []\<rparr>"

text \<open>
  \<open>GeneratePolicy\<close> returns the pair \<open>(*policy.Policy, error)\<close>; \<open>None\<close> is nil.
\<close>

definition GeneratePolicy ::
  "('i, 's) world \<Rightarrow> string list \<Rightarrow> Policy option \<times> string option" where
  "GeneratePolicy w Dockerfiles =
     (case GeneratePolicy_files w GeneratePolicy_init Dockerfiles of
        (st, Some err) \<Rightarrow> (None, Some err)
      | (st, None) \<Rightarrow> (Some (st_pol st), None))"

text \<open>The references handed to \<open>client.GetDigest\<close> during a run.\<close>

definition GetDigest_calls :: "('i, 's) world \<Rightarrow> string list \<Rightarrow> named_ref list" where
  "GetDigest_calls w Dockerfiles =
     st_calls (fst (GeneratePolicy_files w GeneratePolicy_init Dockerfiles))"

text \<open>
  \<open>WritePolicy\<close>. The JSON encoder of the Go library is the parameter \<open>encode\<close>, given the
  prefix and the indent set by \<open>SetIndent\<close> and the policy; the writer is the text written
  so far.
\<close>

definition WritePolicy ::
  "(string \<Rightarrow> string \<Rightarrow> Policy \<Rightarrow> string + string) \<Rightarrow> string \<Rightarrow> Policy
     \<Rightarrow> string \<times> string option" where
  "WritePolicy encode out p =
     (case encode [] ''  '' p of
        Inl err \<Rightarrow> (out, Some err)
      | Inr bytes \<Rightarrow> (out @ bytes, None))"


section \<open>Notions of the specification\<close>

text \<open>
  The references extracted from the Dockerfiles, in the order supplied (a file that does
  not parse contributes none), and the first occurrence of each \<open>Original\<close> among them:
  the element at index \<open>i\<close> is kept when no earlier index holds the same \<open>Original\<close>.
\<close>

definition extracted_refs :: "('i, 's) world \<Rightarrow> string list \<Rightarrow> ImageRef list" where
  "extracted_refs w Dockerfiles =
     concat (map (\<lambda>f. case ParseFile w f of Inl err \<Rightarrow> [] | Inr refs \<Rightarrow> refs) Dockerfiles)"

definition first_seen :: "ImageRef list \<Rightarrow> ImageRef list" where
  "first_seen rs =
     [rs ! i. i \<leftarrow> [0..<length rs], Original (rs ! i) \<notin> Original ` set (take i rs)]"

abbreviation undigested :: "ImageRef \<Rightarrow> bool" where
  "undigested r \<equiv> \<not> is_Digested (Ref r)"

text \<open>The references that are not skipped: first occurrences that carry no digest.\<close>

definition non_skipped :: "('i, 's) world \<Rightarrow> string list \<Rightarrow> ImageRef list" where
  "non_skipped w Dockerfiles = filter undigested (first_seen (extracted_refs w Dockerfiles))"

text \<open>The first occurrences in a list, given the set of names seen before it.\<close>

fun unseen :: "string set \<Rightarrow> ImageRef list \<Rightarrow> ImageRef list" where
  "unseen S [] = []"
| "unseen S (r # rs) =
     (if Original r \<in> S then unseen S rs else r # unseen (insert (Original r) S) rs)"

text \<open>
  What the loop body computes for a reference it resolves: the text of the pinned
  reference, or the error the run ends with.
\<close>

definition pinned_reference :: "('i, 's) world \<Rightarrow> ImageRef \<Rightarrow> string + string" where
  "pinned_reference w r =
     (case GetDigest (registry_client w) (Ref r) of
        Inl err \<Rightarrow> Inl (''failed to get digest for '' @ Original r @ '': '' @ err)
      | Inr digestStr \<Rightarrow>
          (case digest_Parse w digestStr of
             Inl err \<Rightarrow> Inl (''failed to parse digest '' @ digestStr @ '': '' @ err)
           | Inr d \<Rightarrow>
               (case WithDigest w (Ref r) d of
                  Inl err \<Rightarrow>
                    Inl (''failed to create pinned reference for '' @ Original r @ '': '' @ err)
                | Inr pinnedRef \<Rightarrow> Inr (reference_String pinnedRef))))"

definition pin_rule :: "string \<Rightarrow> string \<Rightarrow> PolicyRule" where
  "pin_rule original pinned =
     \<lparr>rule_action = CONVERT, selector_identifier = image_scheme @ original,
      updates_identifier = image_scheme @ pinned\<rparr>"

definition expected_rules :: "('i, 's) world \<Rightarrow> ImageRef list \<Rightarrow> Policy" where
  "expected_rules w rs =
     concat (map (\<lambda>r. case pinned_reference w r of
                         Inl err \<Rightarrow> []
                       | Inr pinned \<Rightarrow> [pin_rule (Original r) pinned]) rs)"

text \<open>The rules of a policy whose selector is a given reference as written.\<close>

definition rules_for :: "string \<Rightarrow> Policy \<Rightarrow> Policy" where
  "rules_for original p =
     filter (\<lambda>rule. selector_identifier rule = image_scheme @ original) p"

text \<open>
  The contract of the digest library: a digest text that \<open>manifest.Digest\<close> yields is
  accepted by \<open>digest.Parse\<close>, and \<open>reference.WithDigest\<close> accepts the parsed digest.
\<close>

definition digest_contract :: "('i, 's) world \<Rightarrow> bool" where
  "digest_contract w =
     (\<forall>b d. manifest_Digest (registry_client w) b = Inr d \<longrightarrow>
        (\<exists>d'. digest_Parse w d = Inr d' \<and> (\<forall>r. \<exists>p. WithDigest w r d' = Inr p)))"

text \<open>The markers \<open>IsNotFoundOrAuthError\<close> searches for, and those the specification lists.\<close>

definition fallback_markers :: "string list" where
  "fallback_markers =
     [''401'', ''403'', ''404'', ''manifest unknown'', ''not found'', ''unauthorized'',
      ''authentication required'', ''denied'', ''does not exist'']"

definition specified_markers :: "string list" where
  "specified_markers =
     [''401'', ''403'', ''404'', ''manifest unknown'', ''name unknown'', ''denied'',
      ''unauthorized'', ''does not exist'']"

text \<open>
  The text \<open>MapToDHI\<close> hands to the parser for an eligible reference, and eligibility as
  the specification words it: a single-segment name under \<open>library/\<close> on \<open>docker.io\<close>.
\<close>

definition dhi_string :: "named_ref \<Rightarrow> string" where
  "dhi_string r = ''dhi.io/'' @ drop 8 (ref_path r)
                  @ (case ref_tag r of None \<Rightarrow> [] | Some t \<Rightarrow> '':'' @ t)"

definition single_segment_official :: "named_ref \<Rightarrow> bool" where
  "single_segment_official r =
     (ref_domain r = ''docker.io'' \<and> HasPrefix (ref_path r) ''library/''
      \<and> drop 8 (ref_path r) \<noteq> [] \<and> CHR ''/'' \<notin> set (drop 8 (ref_path r))
      \<and> ref_domain r \<noteq> ''dhi.io'')"


section \<open>Example data\<close>

text \<open>
  A small registry, three Dockerfiles and a grammar check by character set, used to run
  the functions on concrete inputs.
\<close>

definition charset_grammar :: "string \<Rightarrow> string option" where
  "charset_grammar s =
     (if s \<noteq> [] \<and> list_all (\<lambda>c. word_char c \<or> c \<in> set ''./:@-'') s then None
      else Some ''invalid reference format'')"

definition alpine_3_18 :: named_ref where
  "alpine_3_18 = \<lparr>ref_domain = ''docker.io'', ref_path = ''library/alpine'',
                  ref_tag = Some ''3.18'', ref_digest = None\<rparr>"

definition dhi_alpine_3_18 :: named_ref where
  "dhi_alpine_3_18 = \<lparr>ref_domain = ''dhi.io'', ref_path = ''alpine'',
                      ref_tag = Some ''3.18'', ref_digest = None\<rparr>"

definition ghcr_runner :: named_ref where
  "ghcr_runner = \<lparr>ref_domain = ''ghcr.io'', ref_path = ''actions/runner'',
                  ref_tag = Some ''latest'', ref_digest = None\<rparr>"

definition library_foo_bar :: named_ref where
  "library_foo_bar = \<lparr>ref_domain = ''docker.io'', ref_path = ''library/foo/bar'',
                      ref_tag = Some ''1.0'', ref_digest = None\<rparr>"

definition digest_a :: string where
  "digest_a = ''sha256:44136fa355b3678a1146ad16f7e8649e94fb4fc21fe77e8310c060f61caaff8a''"

definition digest_b :: string where
  "digest_b = ''sha256:4f53cda18c2baa0c0354bb5f9a3ecbe5ed12ab4d8e11ba873c2f11161202b945''"

definition ref_alpine :: ImageRef where
  "ref_alpine = \<lparr>Original = ''alpine:3.18'',
                 Ref = \<lparr>ref_domain = ''docker.io'', ref_path = ''library/alpine'',
                        ref_tag = Some ''3.18'', ref_digest = None\<rparr>\<rparr>"

definition ref_pinned :: ImageRef where
  "ref_pinned = \<lparr>Original = ''alpine@'' @ digest_a,
                 Ref = \<lparr>ref_domain = ''docker.io'', ref_path = ''library/alpine'',
                        ref_tag = None, ref_digest = Some digest_a\<rparr>\<rparr>"

definition ref_node :: ImageRef where
  "ref_node = \<lparr>Original = ''node'',
               Ref = \<lparr>ref_domain = ''docker.io'', ref_path = ''library/node'',
                      ref_tag = None, ref_digest = None\<rparr>\<rparr>"

definition ref_missing :: ImageRef where
  "ref_missing = \<lparr>Original = ''ghcr.io/acme/missing:1'',
                  Ref = \<lparr>ref_domain = ''ghcr.io'', ref_path = ''acme/missing'',
                         ref_tag = Some ''1'', ref_digest = None\<rparr>\<rparr>"

text \<open>The manifests served; \<open>reported\<close> is what the transport reports besides the bytes.\<close>

definition fixture_manifests :: "string \<Rightarrow> named_ref \<Rightarrow> string + (string \<times> string)" where
  "fixture_manifests reported s =
     (if ref_path s = ''library/alpine'' \<and> ref_tag s = Some ''3.18'' then Inr (''{}'', reported)
      else if ref_path s = ''library/node'' \<and> ref_tag s = Some ''latest'' then Inr (''[]'', reported)
      else Inl ''manifest unknown'')"

definition fixture_client :: "(named_ref, named_ref) Client" where
  "fixture_client =
     \<lparr>NewReference = Inr, NewImageSource = Inr,
      GetManifest = fixture_manifests ''application/vnd.oci.image.manifest.v1+json'',
      manifest_Digest = (\<lambda>b. if b = ''{}'' then Inr digest_a
                              else if b = ''[]'' then Inr digest_b
                              else Inl ''unsupported manifest'')\<rparr>"

definition fixture_world :: "(named_ref, named_ref) world" where
  "fixture_world =
     \<lparr>ParseFile = (\<lambda>f. if f = ''Dockerfile'' then Inr [ref_alpine, ref_pinned, ref_alpine, ref_node]
                        else if f = ''ci.Dockerfile'' then Inr [ref_node, ref_pinned, ref_alpine]
                        else if f = ''bad.Dockerfile'' then Inr [ref_alpine, ref_missing]
                        else Inl ''no such file''),
      registry_client = fixture_client,
      digest_Parse = Inr,
      WithDigest = (\<lambda>r d. Inr (r\<lparr>ref_digest := Some d\<rparr>))\<rparr>"

definition fixture_policy :: Policy where
  "fixture_policy =
     [pin_rule ''alpine:3.18'' (''docker.io/library/alpine:3.18@'' @ digest_a),
      pin_rule ''node'' (''docker.io/library/node@'' @ digest_b)]"

definition fixture_encode :: "string \<Rightarrow> string \<Rightarrow> Policy \<Rightarrow> string + string" where
  "fixture_encode pre indent p =
     Inr (concat (map (\<lambda>rule. pre @ indent @ selector_identifier rule @ '' -> ''
                               @ updates_identifier rule @ [CHR 0x0A]) p))"

definition seen_alpine :: pin_state where
  "seen_alpine = \<lparr>st_pol = [], st_seen = {''alpine:3.18''}, st_calls = []\<rparr>"


section \<open>Strings: lemmas\<close>

lemma HasPrefix_take: "HasPrefix s p \<longleftrightarrow> take (length p) s = p"
  by (induction s p rule: HasPrefix.induct) auto

lemma Contains_iff: "Contains s substr \<longleftrightarrow> (\<exists>pre post. s = pre @ substr @ post)"
proof (induction s)
  case Nil
  then show ?case by auto
next
  case (Cons c cs)
  have "HasPrefix (c # cs) substr \<longleftrightarrow> (\<exists>post. c # cs = substr @ post)"
    unfolding HasPrefix_take by (metis append_eq_conv_conj)
  moreover have "(\<exists>pre post. c # cs = pre @ substr @ post)
                 \<longleftrightarrow> (\<exists>post. c # cs = substr @ post) \<or> (\<exists>pre post. cs = pre @ substr @ post)"
  proof
    assume "\<exists>pre post. c # cs = pre @ substr @ post"
    then obtain pre post where eq: "c # cs = pre @ substr @ post" by blast
    show "(\<exists>post. c # cs = substr @ post) \<or> (\<exists>pre post. cs = pre @ substr @ post)"
    proof (cases pre)
      case Nil
      with eq show ?thesis by auto
    next
      case (Cons a pre')
      with eq have "cs = pre' @ substr @ post" by simp
      then show ?thesis by blast
    qed
  next
    assume "(\<exists>post. c # cs = substr @ post) \<or> (\<exists>pre post. cs = pre @ substr @ post)"
    then show "\<exists>pre post. c # cs = pre @ substr @ post"
    proof
      assume "\<exists>post. c # cs = substr @ post"
      then obtain post where "c # cs = [] @ substr @ post" by auto
      then show ?thesis by blast
    next
      assume "\<exists>pre post. cs = pre @ substr @ post"
      then obtain pre post where "c # cs = (c # pre) @ substr @ post" by auto
      then show ?thesis by blast
    qed
  qed
  ultimately show ?case using Cons.IH by simp
qed

lemma takeWhile_all: "c \<notin> set xs \<Longrightarrow> takeWhile (\<lambda>x. x \<noteq> c) (xs @ c # ys) = xs"
  by (induction xs) auto

lemma takeWhile_none: "c \<notin> set xs \<Longrightarrow> takeWhile (\<lambda>x. x \<noteq> c) xs = xs"
  by (induction xs) auto


section \<open>The error classifier\<close>

text \<open>
  Claim C8, as the specification words it, fails in both directions: an error text with
  \<open>not found\<close> is classified as not-found although it holds none of the specified markers,
  and a text whose only marker is \<open>name unknown\<close> is not.
\<close>

theorem classifier_markers_counterexample:
  "IsNotFoundOrAuthError ascii_ToLower (Some ''dial tcp: lookup dhi.io: host not found'')
   \<and> \<not> list_ex (Contains (ascii_ToLower ''dial tcp: lookup dhi.io: host not found'')) specified_markers
   \<and> \<not> IsNotFoundOrAuthError ascii_ToLower (Some ''NAME_UNKNOWN: repository name unknown to registry'')
   \<and> list_ex (Contains (ascii_ToLower ''NAME_UNKNOWN: repository name unknown to registry''))
        specified_markers"
  by (simp add: IsNotFoundOrAuthError_def specified_markers_def ascii_ToLower_def lower_char_def)

text \<open>
  Claim C8, amended: \<open>IsNotFoundOrAuthError\<close> is false for the nil error; it is true for
  every error whose text, lower-cased by \<open>strings.ToLower\<close>, contains one of \<open>401\<close>, \<open>403\<close>, \<open>404\<close>,
  \<open>manifest unknown\<close>, \<open>not found\<close>, \<open>unauthorized\<close>, \<open>authentication required\<close>,
  \<open>denied\<close>, \<open>does not exist\<close>; it is false for every error whose lower-cased text
  contains none of these and not \<open>name unknown\<close> either.
\<close>

theorem IsNotFoundOrAuthError_markers:
  "\<not> IsNotFoundOrAuthError lower None
   \<and> (list_ex (Contains (lower msg)) fallback_markers
        \<longrightarrow> IsNotFoundOrAuthError lower (Some msg))
   \<and> (\<not> list_ex (Contains (lower msg)) (''name unknown'' # fallback_markers)
        \<longrightarrow> \<not> IsNotFoundOrAuthError lower (Some msg))"
  unfolding IsNotFoundOrAuthError_def fallback_markers_def Let_def
  by (simp del: Contains.simps)

theorem IsNotFoundOrAuthError_markers_witness:
  "list_ex (Contains (ascii_ToLower ''unexpected HTTP status: 403 Forbidden'')) fallback_markers
   \<and> IsNotFoundOrAuthError ascii_ToLower (Some ''unexpected HTTP status: 403 Forbidden'')
   \<and> \<not> list_ex (Contains (ascii_ToLower ''connection reset by peer''))
          (''name unknown'' # fallback_markers)
   \<and> \<not> IsNotFoundOrAuthError ascii_ToLower (Some ''connection reset by peer'')"
  using IsNotFoundOrAuthError_markers [of ascii_ToLower "''unexpected HTTP status: 403 Forbidden''"]
        IsNotFoundOrAuthError_markers [of ascii_ToLower "''connection reset by peer''"]
  by (simp add: fallback_markers_def ascii_ToLower_def lower_char_def)


section \<open>Hardened-image mapping: lemmas\<close>

lemma splitDockerDomain_dhi: "splitDockerDomain lower (''dhi.io/'' @ x) = (''dhi.io'', x)"
  by (simp add: splitDockerDomain_def defaultDomain_def legacyDefaultDomain_def)

lemma MapToDHI_not_eligible_iff:
  "MapToDHI lower g r = Inl ErrNotEligible \<longleftrightarrow> \<not> CanMapToDHI r"
  by (simp add: MapToDHI_def Let_def split: sum.splits option.splits)

lemma CanMapToDHI_iff:
  "CanMapToDHI r \<longleftrightarrow> ref_domain r = ''docker.io'' \<and> HasPrefix (ref_path r) ''library/''"
  by (simp add: CanMapToDHI_def reference_Domain_def reference_Path_def DockerHubDomain_def
      LibraryPrefix_def del: HasPrefix.simps)

lemma MapToDHI_eligible:
  assumes "CanMapToDHI r"
  shows "MapToDHI lower g r = (case ParseNormalizedNamed lower g (dhi_string r) of
                           Inl err \<Rightarrow> Inl (ErrReference err) | Inr r' \<Rightarrow> Inr r')"
proof -
  from assms have "HasPrefix (ref_path r) ''library/''" by (simp only: CanMapToDHI_iff)
  moreover have "length ''library/'' = 8" by simp
  ultimately have trim: "TrimPrefix (reference_Path r) LibraryPrefix = drop 8 (ref_path r)"
    by (simp only: TrimPrefix_def reference_Path_def LibraryPrefix_def if_True)
  show ?thesis
    using assms by (cases "ref_tag r") (simp_all add: MapToDHI_def trim dhi_string_def Registry_def)
qed

lemma parse_dhi_domain:
  assumes "ParseNormalizedNamed lower g (''dhi.io/'' @ x) = Inr r'"
  shows "ref_domain r' = ''dhi.io''"
proof -
  have "g (''dhi.io/'' @ x) = None"
    using assms by (auto simp: ParseNormalizedNamed_def split: option.splits)
  then show ?thesis
    using assms unfolding ParseNormalizedNamed_def splitDockerDomain_dhi
    by (auto simp: Let_def)
qed

lemma MapToDHI_domain:
  assumes "MapToDHI lower g r = Inr r'"
  shows "ref_domain r' = ''dhi.io''"
proof -
  from assms have can: "CanMapToDHI r"
    by (auto simp: MapToDHI_def split: if_splits)
  have "ParseNormalizedNamed lower g (dhi_string r) = Inr r'"
    using assms unfolding MapToDHI_eligible [OF can] by (auto split: sum.splits)
  then show ?thesis
    unfolding dhi_string_def by (rule parse_dhi_domain)
qed

lemma parse_dhi_untagged:
  assumes "CHR '':'' \<notin> set x" "CHR ''@'' \<notin> set x" "g (''dhi.io/'' @ x) = None"
  shows "ParseNormalizedNamed lower g (''dhi.io/'' @ x)
         = Inr \<lparr>ref_domain = ''dhi.io'', ref_path = x, ref_tag = None, ref_digest = None\<rparr>"
  using assms(3) unfolding ParseNormalizedNamed_def splitDockerDomain_dhi
  by (simp add: takeWhile_none assms(1,2))

lemma parse_dhi_tagged:
  assumes "CHR '':'' \<notin> set x" "CHR ''@'' \<notin> set x" "t \<noteq> []" "CHR ''@'' \<notin> set t"
    "g (''dhi.io/'' @ x @ '':'' @ t) = None"
  shows "ParseNormalizedNamed lower g (''dhi.io/'' @ x @ '':'' @ t)
         = Inr \<lparr>ref_domain = ''dhi.io'', ref_path = x, ref_tag = Some t, ref_digest = None\<rparr>"
proof -
  have a: "takeWhile (\<lambda>c. c \<noteq> CHR ''@'') (x @ '':'' @ t) = x @ '':'' @ t"
    using assms by (intro takeWhile_none) auto
  have b: "takeWhile (\<lambda>c. c \<noteq> CHR '':'') (x @ '':'' @ t) = x"
    using assms takeWhile_all [of "CHR '':''" x t] by simp
  show ?thesis
    using assms(5) unfolding ParseNormalizedNamed_def splitDockerDomain_dhi
    by (simp only: a b Let_def prod.case option.case if_False if_True simp_thms)
       (simp add: assms(3))
qed

lemmas mapper_defs =
  MapToDHI_def CanMapToDHI_def reference_Domain_def reference_Path_def DockerHubDomain_def
  LibraryPrefix_def TrimPrefix_def Registry_def ParseNormalizedNamed_def charset_grammar_def
  word_char_def splitDockerDomain_def defaultDomain_def legacyDefaultDomain_def
  officialRepoPrefix_def ascii_ToLower_def lower_char_def

text \<open>The cases of the repository's \<open>mapper_test.go\<close>, run on the model.\<close>

lemma mapper_test_CanMapToDHI:
  "map (\<lambda>s. map_sum id CanMapToDHI (ParseNormalizedNamed ascii_ToLower charset_grammar s))
     [''alpine:3.18'', ''alpine'', ''docker.io/library/alpine:3.18'',
      ''docker.io/myorg/myimage:1.0'', ''ghcr.io/actions/runner:latest'',
      ''quay.io/centos/centos:8'', ''dhi.io/alpine:3.18'']
   = [Inr True, Inr True, Inr True, Inr False, Inr False, Inr False, Inr False]"
  by (simp add: mapper_defs)

lemma mapper_test_MapToDHI:
  "map (\<lambda>s. case ParseNormalizedNamed ascii_ToLower charset_grammar s of
              Inl err \<Rightarrow> Inl (ErrReference err)
            | Inr r \<Rightarrow> map_sum id reference_String (MapToDHI ascii_ToLower charset_grammar r))
     [''alpine:3.18'', ''alpine'', ''golang:1.21-alpine'', ''ghcr.io/actions/runner:latest'']
   = [Inr ''dhi.io/alpine:3.18'', Inr ''dhi.io/alpine'', Inr ''dhi.io/golang:1.21-alpine'',
      Inl ErrNotEligible]"
  by (simp add: mapper_defs reference_String_def)

lemma MapToDHI_alpine: "MapToDHI ascii_ToLower charset_grammar alpine_3_18 = Inr dhi_alpine_3_18"
  by (simp add: alpine_3_18_def dhi_alpine_3_18_def mapper_defs)


section \<open>Hardened-image mapping: eligibility\<close>

text \<open>
  Claim C7, as the specification words it, fails: a reference on \<open>docker.io\<close> whose path
  has several segments after \<open>library/\<close> is not a single-segment official name, and
  \<open>MapToDHI\<close> maps it all the same.
\<close>

theorem multi_segment_library_counterexample:
  "\<not> single_segment_official library_foo_bar
   \<and> MapToDHI ascii_ToLower charset_grammar library_foo_bar
       = Inr \<lparr>ref_domain = ''dhi.io'', ref_path = ''foo/bar'', ref_tag = Some ''1.0'',
              ref_digest = None\<rparr>"
  by (simp add: single_segment_official_def library_foo_bar_def mapper_defs)

text \<open>
  Claim C7, amended: for a reference whose path holds neither \<open>:\<close> nor \<open>@\<close> and whose tag,
  when present, is not empty and holds no \<open>@\<close> (every reference of the library is so),
  \<open>MapToDHI\<close> returns \<open>ErrNotEligible\<close> exactly when the domain is not \<open>docker.io\<close> or the
  path does not start with \<open>library/\<close>. When the reference is eligible, the text
  \<open>dhi.io/\<close>, path without \<open>library/\<close>, and \<open>:tag\<close> when tagged, goes to the parser: the
  result is the reference on \<open>dhi.io\<close> with that path, the same tag and no digest, or the
  error of the parser's grammar check.
\<close>

theorem MapToDHI_eligibility:
  assumes "CHR '':'' \<notin> set (ref_path r)" "CHR ''@'' \<notin> set (ref_path r)"
    and "\<forall>t. ref_tag r = Some t \<longrightarrow> t \<noteq> [] \<and> CHR ''@'' \<notin> set t"
  shows "(MapToDHI lower g r = Inl ErrNotEligible
            \<longleftrightarrow> \<not> (ref_domain r = ''docker.io'' \<and> HasPrefix (ref_path r) ''library/''))
         \<and> (ref_domain r = ''docker.io'' \<and> HasPrefix (ref_path r) ''library/'' \<longrightarrow>
              MapToDHI lower g r =
                (case g (dhi_string r) of
                   None \<Rightarrow> Inr \<lparr>ref_domain = ''dhi.io'', ref_path = drop 8 (ref_path r),
                                ref_tag = ref_tag r, ref_digest = None\<rparr>
                 | Some err \<Rightarrow> Inl (ErrReference err)))"
proof (intro conjI impI)
  show "MapToDHI lower g r = Inl ErrNotEligible
            \<longleftrightarrow> \<not> (ref_domain r = ''docker.io'' \<and> HasPrefix (ref_path r) ''library/'')"
    by (simp only: MapToDHI_not_eligible_iff CanMapToDHI_iff)
next
  assume el: "ref_domain r = ''docker.io'' \<and> HasPrefix (ref_path r) ''library/''"
  then have can: "CanMapToDHI r" by (simp only: CanMapToDHI_iff)
  let ?x = "drop 8 (ref_path r)"
  have x: "CHR '':'' \<notin> set ?x" "CHR ''@'' \<notin> set ?x"
    using assms(1,2) by (auto dest: in_set_dropD)
  show "MapToDHI lower g r =
                (case g (dhi_string r) of
                   None \<Rightarrow> Inr \<lparr>ref_domain = ''dhi.io'', ref_path = drop 8 (ref_path r),
                                ref_tag = ref_tag r, ref_digest = None\<rparr>
                 | Some err \<Rightarrow> Inl (ErrReference err))"
  proof (cases "g (dhi_string r)")
    case (Some err)
    then show ?thesis
      unfolding MapToDHI_eligible [OF can] by (simp add: ParseNormalizedNamed_def)
  next
    case accepted: None
    show ?thesis
    proof (cases "ref_tag r")
      case None
      then have s: "dhi_string r = ''dhi.io/'' @ ?x" by (simp add: dhi_string_def)
      from accepted have "g (''dhi.io/'' @ ?x) = None" unfolding s .
      from parse_dhi_untagged [of ?x g lower, OF x this] accepted None show ?thesis
        unfolding MapToDHI_eligible [OF can] s by simp
    next
      case (Some t)
      then have s: "dhi_string r = ''dhi.io/'' @ ?x @ '':'' @ t" by (simp add: dhi_string_def)
      from assms(3) Some have t: "t \<noteq> []" "CHR ''@'' \<notin> set t" by auto
      from accepted have "g (''dhi.io/'' @ ?x @ '':'' @ t) = None" unfolding s .
      from parse_dhi_tagged [of ?x t g lower, OF x t this] accepted Some show ?thesis
        unfolding MapToDHI_eligible [OF can] s by simp
    qed
  qed
qed

theorem MapToDHI_eligibility_witness:
  "MapToDHI ascii_ToLower charset_grammar alpine_3_18 = Inr dhi_alpine_3_18
   \<and> MapToDHI ascii_ToLower charset_grammar ghcr_runner = Inl ErrNotEligible"
  using MapToDHI_eligibility [of alpine_3_18 ascii_ToLower charset_grammar]
    MapToDHI_eligibility [of ghcr_runner ascii_ToLower charset_grammar]
  by (simp add: alpine_3_18_def dhi_alpine_3_18_def ghcr_runner_def dhi_string_def
      charset_grammar_def word_char_def)

text \<open>
  Claim C10: when \<open>CanMapToDHI\<close> holds of a reference and \<open>MapToDHI\<close> returns a reference
  for it, the returned reference has the domain \<open>dhi.io\<close>, \<open>CanMapToDHI\<close> is false of it,
  and a second \<open>MapToDHI\<close> returns \<open>ErrNotEligible\<close>.
\<close>

theorem MapToDHI_not_twice:
  assumes "CanMapToDHI r" and "MapToDHI lower g r = Inr r'"
  shows "ref_domain r' = ''dhi.io'' \<and> \<not> CanMapToDHI r' \<and> MapToDHI lower g r' = Inl ErrNotEligible"
proof -
  have d: "ref_domain r' = ''dhi.io''" using assms(2) by (rule MapToDHI_domain)
  then have "\<not> CanMapToDHI r'" by (simp add: CanMapToDHI_iff)
  with d show ?thesis by (simp add: MapToDHI_not_eligible_iff)
qed

theorem MapToDHI_not_twice_witness:
  "CanMapToDHI alpine_3_18
   \<and> MapToDHI ascii_ToLower charset_grammar alpine_3_18 = Inr dhi_alpine_3_18
   \<and> \<not> CanMapToDHI dhi_alpine_3_18
   \<and> MapToDHI ascii_ToLower charset_grammar dhi_alpine_3_18 = Inl ErrNotEligible"
proof -
  have c: "CanMapToDHI alpine_3_18"
    by (simp add: alpine_3_18_def CanMapToDHI_iff)
  from MapToDHI_not_twice [OF c MapToDHI_alpine] c MapToDHI_alpine show ?thesis by simp
qed




section \<open>Registry client: lemmas\<close>

lemma GetDigest_bytes_only:
  assumes "\<forall>s. map_sum id fst (gm s) = map_sum id fst (GetManifest c s)"
  shows "GetDigest (c\<lparr>GetManifest := gm\<rparr>) r = GetDigest c r"
proof -
  have fetch: "GetDigest_fetch (c\<lparr>GetManifest := gm\<rparr>) x = GetDigest_fetch c x" for x
  proof (cases "NewReference c x")
    case (Inl e)
    then show ?thesis by (simp add: GetDigest_fetch_def)
  next
    case (Inr i)
    show ?thesis
    proof (cases "NewImageSource c i")
      case (Inl e)
      with Inr show ?thesis by (simp add: GetDigest_fetch_def)
    next
      case src: (Inr s)
      from assms have "map_sum id fst (gm s) = map_sum id fst (GetManifest c s)" by blast
      with Inr src show ?thesis
        by (cases "gm s"; cases "GetManifest c s") (auto simp: GetDigest_fetch_def)
    qed
  qed
  show ?thesis
    by (simp add: GetDigest_def fetch split: sum.splits)
qed

lemma GetDigest_from_manifest:
  assumes "GetDigest c r = Inr d"
  shows "\<exists>r' i s b m. GetDigest_defaultTag r = Inr r' \<and> NewReference c r' = Inr i
           \<and> NewImageSource c i = Inr s \<and> GetManifest c s = Inr (b, m)
           \<and> manifest_Digest c b = Inr d"
  using assms
  by (auto simp: GetDigest_def GetDigest_fetch_def split: sum.splits prod.splits)


lemmas fixture_defs =
  fixture_world_def fixture_client_def fixture_manifests_def ref_alpine_def ref_pinned_def
  ref_node_def ref_missing_def digest_a_def digest_b_def

lemmas run_defs =
  GeneratePolicy_def GeneratePolicy_init_def NewPolicy_def GeneratePolicy_body_def
  GetDigest_def GetDigest_defaultTag_def GetDigest_fetch_def WithTag_def valid_tag_def
  word_char_def is_Tagged_def is_Digested_def AddPinRule_def reference_String_def
  image_scheme_def Let_def

lemma fixture_GetDigest_alpine:
  "GetDigest (registry_client fixture_world) (Ref ref_alpine) = Inr digest_a"
  by (simp add: fixture_defs run_defs)

lemma fixture_GetDigest_node:
  "GetDigest (registry_client fixture_world) (Ref ref_node) = Inr digest_b"
  by (simp add: fixture_defs run_defs)

lemma fixture_GetDigest_missing:
  "GetDigest (registry_client fixture_world) (Ref ref_missing)
     = Inl ''failed to get manifest for ghcr.io/acme/missing:1: manifest unknown''"
  by (simp add: fixture_defs run_defs)



section \<open>Resolving a reference\<close>

text \<open>
  Claim C6: a reference with neither tag nor digest is resolved by \<open>GetDigest\<close> as the
  same reference tagged \<open>latest\<close>: the manifest is fetched for the tagged reference and
  the result is that of \<open>GetDigest\<close> on it. A reference that has a tag or a digest is
  fetched as it is.
\<close>

theorem GetDigest_default_tag:
  "(\<not> is_Tagged r \<and> \<not> is_Digested r \<longrightarrow>
      GetDigest c r = GetDigest_fetch c (r\<lparr>ref_tag := Some ''latest''\<rparr>)
      \<and> GetDigest c r = GetDigest c (r\<lparr>ref_tag := Some ''latest''\<rparr>))
   \<and> (is_Tagged r \<or> is_Digested r \<longrightarrow> GetDigest c r = GetDigest_fetch c r)"
  by (simp add: GetDigest_def GetDigest_defaultTag_def WithTag_def valid_tag_def word_char_def
      is_Tagged_def is_Digested_def)

theorem GetDigest_default_tag_witness:
  "GetDigest fixture_client (Ref ref_node)
     = GetDigest_fetch fixture_client
         \<lparr>ref_domain = ''docker.io'', ref_path = ''library/node'', ref_tag = Some ''latest'',
          ref_digest = None\<rparr>
   \<and> GetDigest fixture_client (Ref ref_alpine) = GetDigest_fetch fixture_client (Ref ref_alpine)"
  using GetDigest_default_tag [of "Ref ref_node" fixture_client]
    GetDigest_default_tag [of "Ref ref_alpine" fixture_client]
  by (simp add: is_Tagged_def is_Digested_def ref_node_def ref_alpine_def)

text \<open>
  Claim C5: the result of \<open>GetDigest\<close> depends on the transport's \<open>GetManifest\<close> only
  through the manifest bytes (or the error): replacing it by one that returns the same
  bytes and reports anything else beside them gives the same result. A digest that
  \<open>GetDigest\<close> returns is \<open>manifest.Digest\<close> of the bytes fetched for the reference.
\<close>

theorem GetDigest_from_manifest_bytes:
  assumes "\<forall>s. map_sum id fst (gm s) = map_sum id fst (GetManifest c s)"
  shows "GetDigest (c\<lparr>GetManifest := gm\<rparr>) r = GetDigest c r
         \<and> (\<forall>d. GetDigest c r = Inr d \<longrightarrow>
              (\<exists>r' i s b m. GetDigest_defaultTag r = Inr r' \<and> NewReference c r' = Inr i
                 \<and> NewImageSource c i = Inr s \<and> GetManifest c s = Inr (b, m)
                 \<and> manifest_Digest c b = Inr d))"
  using GetDigest_bytes_only [OF assms] GetDigest_from_manifest by blast

theorem GetDigest_from_manifest_bytes_witness:
  "GetDigest (fixture_client\<lparr>GetManifest := fixture_manifests digest_b\<rparr>) (Ref ref_alpine)
     = Inr digest_a
   \<and> GetDigest fixture_client (Ref ref_alpine) = Inr digest_a"
proof -
  have "\<forall>s. map_sum id fst (fixture_manifests digest_b s)
            = map_sum id fst (GetManifest fixture_client s)"
    by (simp add: fixture_client_def fixture_manifests_def)
  from GetDigest_from_manifest_bytes [OF this, of "Ref ref_alpine"] fixture_GetDigest_alpine
  show ?thesis by (simp add: fixture_world_def)
qed


section \<open>Pinning: the loops\<close>

subsection \<open>The loop body\<close>

lemma body_seen:
  "Original r \<in> st_seen st \<Longrightarrow> GeneratePolicy_body w st r = (st, None)"
  by (simp add: GeneratePolicy_body_def)

lemma body_digested:
  "Original r \<notin> st_seen st \<Longrightarrow> is_Digested (Ref r) \<Longrightarrow>
     GeneratePolicy_body w st r = (st\<lparr>st_seen := insert (Original r) (st_seen st)\<rparr>, None)"
  by (simp add: GeneratePolicy_body_def)

lemma body_pin:
  "Original r \<notin> st_seen st \<Longrightarrow> \<not> is_Digested (Ref r) \<Longrightarrow>
     GeneratePolicy_body w st r =
       (case pinned_reference w r of
          Inl err \<Rightarrow> (st\<lparr>st_seen := insert (Original r) (st_seen st),
                          st_calls := st_calls st @ [Ref r]\<rparr>, Some err)
        | Inr pinned \<Rightarrow> (st\<lparr>st_seen := insert (Original r) (st_seen st),
                             st_calls := st_calls st @ [Ref r],
                             st_pol := st_pol st @ [pin_rule (Original r) pinned]\<rparr>, None))"
  by (simp add: GeneratePolicy_body_def pinned_reference_def AddPinRule_def pin_rule_def Let_def
      split: sum.splits)

lemma body_cases:
  obtains (seen) "Original r \<in> st_seen st" "GeneratePolicy_body w st r = (st, None)"
  | (digested) "Original r \<notin> st_seen st" "is_Digested (Ref r)"
      "GeneratePolicy_body w st r = (st\<lparr>st_seen := insert (Original r) (st_seen st)\<rparr>, None)"
  | (failed) err where "Original r \<notin> st_seen st" "\<not> is_Digested (Ref r)"
      "pinned_reference w r = Inl err"
      "GeneratePolicy_body w st r =
         (st\<lparr>st_seen := insert (Original r) (st_seen st),
             st_calls := st_calls st @ [Ref r]\<rparr>, Some err)"
  | (pinned) pinned where "Original r \<notin> st_seen st" "\<not> is_Digested (Ref r)"
      "pinned_reference w r = Inr pinned"
      "GeneratePolicy_body w st r =
         (st\<lparr>st_seen := insert (Original r) (st_seen st),
             st_calls := st_calls st @ [Ref r],
             st_pol := st_pol st @ [pin_rule (Original r) pinned]\<rparr>, None)"
proof (cases "Original r \<in> st_seen st")
  case True
  then show ?thesis using seen body_seen by blast
next
  case unseen: False
  show ?thesis
  proof (cases "is_Digested (Ref r)")
    case True
    then show ?thesis using unseen digested body_digested by blast
  next
    case False
    show ?thesis
    proof (cases "pinned_reference w r")
      case (Inl err)
      with unseen False failed [of err] body_pin [OF unseen False, of w] show ?thesis by simp
    next
      case (Inr s)
      with unseen False pinned [of s] body_pin [OF unseen False, of w] show ?thesis by simp
    qed
  qed
qed

subsection \<open>The inner loop\<close>

lemma refs_ok:
  assumes "GeneratePolicy_refs w st rs = (st', None)"
  shows "st_seen st' = st_seen st \<union> Original ` set rs
         \<and> st_calls st' = st_calls st @ map Ref (filter undigested (unseen (st_seen st) rs))
         \<and> st_pol st' = st_pol st @ expected_rules w (filter undigested (unseen (st_seen st) rs))
         \<and> (\<forall>r\<in>set (filter undigested (unseen (st_seen st) rs)).
               \<exists>pinned. pinned_reference w r = Inr pinned)"
  using assms
proof (induction rs arbitrary: st)
  case Nil
  then show ?case by (simp add: expected_rules_def)
next
  case (Cons r rs)
  show ?case
  proof (cases rule: body_cases [of r st w])
    case seen
    with Cons.prems have "GeneratePolicy_refs w st rs = (st', None)" by simp
    from Cons.IH [OF this] seen(1) show ?thesis by auto
  next
    case digested
    with Cons.prems have
      "GeneratePolicy_refs w (st\<lparr>st_seen := insert (Original r) (st_seen st)\<rparr>) rs = (st', None)"
      by simp
    from Cons.IH [OF this] digested(1,2) show ?thesis by auto
  next
    case (failed err)
    with Cons.prems show ?thesis by simp
  next
    case (pinned s)
    with Cons.prems have
      "GeneratePolicy_refs w (st\<lparr>st_seen := insert (Original r) (st_seen st),
             st_calls := st_calls st @ [Ref r],
             st_pol := st_pol st @ [pin_rule (Original r) s]\<rparr>) rs = (st', None)"
      by simp
    from Cons.IH [OF this] pinned(1,2,3) show ?thesis
      by (auto simp: expected_rules_def)
  qed
qed

lemma refs_err:
  assumes "GeneratePolicy_refs w st rs = (st', Some e)"
  shows "\<exists>r\<in>set (filter undigested (unseen (st_seen st) rs)). pinned_reference w r = Inl e"
  using assms
proof (induction rs arbitrary: st)
  case Nil
  then show ?case by simp
next
  case (Cons r rs)
  show ?case
  proof (cases rule: body_cases [of r st w])
    case seen
    with Cons.prems have "GeneratePolicy_refs w st rs = (st', Some e)" by simp
    from Cons.IH [OF this] seen(1) show ?thesis by auto
  next
    case digested
    with Cons.prems have
      "GeneratePolicy_refs w (st\<lparr>st_seen := insert (Original r) (st_seen st)\<rparr>) rs = (st', Some e)"
      by simp
    from Cons.IH [OF this] digested(1,2) show ?thesis by auto
  next
    case (failed err)
    with Cons.prems show ?thesis by auto
  next
    case (pinned s)
    with Cons.prems have
      "GeneratePolicy_refs w (st\<lparr>st_seen := insert (Original r) (st_seen st),
             st_calls := st_calls st @ [Ref r],
             st_pol := st_pol st @ [pin_rule (Original r) s]\<rparr>) rs = (st', Some e)"
      by simp
    from Cons.IH [OF this] pinned(1,2,3) show ?thesis by auto
  qed
qed

lemma refs_calls:
  assumes "GeneratePolicy_refs w st rs = (st', res)"
  shows "set (st_calls st') \<subseteq> set (st_calls st) \<union> {c. \<not> is_Digested c}"
  using assms
proof (induction rs arbitrary: st)
  case Nil
  then show ?case by auto
next
  case (Cons r rs)
  show ?case
  proof (cases rule: body_cases [of r st w])
    case seen
    with Cons.prems have "GeneratePolicy_refs w st rs = (st', res)" by simp
    from Cons.IH [OF this] show ?thesis .
  next
    case digested
    with Cons.prems have
      "GeneratePolicy_refs w (st\<lparr>st_seen := insert (Original r) (st_seen st)\<rparr>) rs = (st', res)"
      by simp
    from Cons.IH [OF this] show ?thesis by simp
  next
    case (failed err)
    with Cons.prems show ?thesis by auto
  next
    case (pinned s)
    with Cons.prems have
      "GeneratePolicy_refs w (st\<lparr>st_seen := insert (Original r) (st_seen st),
             st_calls := st_calls st @ [Ref r],
             st_pol := st_pol st @ [pin_rule (Original r) s]\<rparr>) rs = (st', res)"
      by simp
    from Cons.IH [OF this] pinned(2) show ?thesis by auto
  qed
qed


subsection \<open>First occurrences\<close>

lemma unseen_append:
  "unseen S (xs @ ys) = unseen S xs @ unseen (S \<union> Original ` set xs) ys"
  by (induction xs arbitrary: S) (auto simp: insert_absorb)

lemma first_seen_snoc:
  "first_seen (rs @ [r]) =
     first_seen rs @ (if Original r \<in> Original ` set rs then [] else [r])"
proof -
  let ?F = "\<lambda>xs i. if Original (xs ! i) \<notin> Original ` set (take i xs) then [xs ! i] else []"
  have old: "map (?F (rs @ [r])) [0..<length rs] = map (?F rs) [0..<length rs]"
    by (rule map_cong) (auto simp: nth_append)
  have new: "?F (rs @ [r]) (length rs) = (if Original r \<in> Original ` set rs then [] else [r])"
    by simp
  have "first_seen (rs @ [r]) = concat (map (?F (rs @ [r])) ([0..<length rs] @ [length rs]))"
    by (simp add: first_seen_def)
  also have "\<dots> = concat (map (?F (rs @ [r])) [0..<length rs]) @ ?F (rs @ [r]) (length rs)"
    by (simp only: map_append concat_append list.map concat.simps append_Nil2)
  also have "\<dots> = concat (map (?F rs) [0..<length rs])
                   @ (if Original r \<in> Original ` set rs then [] else [r])"
    by (simp only: old new)
  finally show ?thesis by (simp add: first_seen_def)
qed

lemma unseen_empty: "unseen {} rs = first_seen rs"
proof (induction rs rule: rev_induct)
  case Nil
  then show ?case by (simp add: first_seen_def)
next
  case (snoc r rs)
  then show ?case by (simp add: unseen_append first_seen_snoc)
qed

lemma unseen_subset: "set (unseen S rs) \<subseteq> set rs"
  by (induction rs arbitrary: S) auto

lemma unseen_fresh: "r \<in> set (unseen S rs) \<Longrightarrow> Original r \<notin> S"
  by (induction rs arbitrary: S) (auto split: if_splits)

lemma unseen_distinct: "distinct (map Original (unseen S rs))"
  by (induction rs arbitrary: S) (auto dest: unseen_fresh)

subsection \<open>The outer loop\<close>

lemma extracted_refs_Cons:
  "extracted_refs w (f # fs) =
     (case ParseFile w f of Inl err \<Rightarrow> [] | Inr refs \<Rightarrow> refs) @ extracted_refs w fs"
  by (simp add: extracted_refs_def)

lemma expected_rules_append:
  "expected_rules w (xs @ ys) = expected_rules w xs @ expected_rules w ys"
  by (simp add: expected_rules_def)

lemma files_ok:
  assumes "GeneratePolicy_files w st fs = (st', None)"
  shows "(\<forall>f\<in>set fs. \<exists>refs. ParseFile w f = Inr refs)
         \<and> st_seen st' = st_seen st \<union> Original ` set (extracted_refs w fs)
         \<and> st_calls st' = st_calls st
              @ map Ref (filter undigested (unseen (st_seen st) (extracted_refs w fs)))
         \<and> st_pol st' = st_pol st
              @ expected_rules w (filter undigested (unseen (st_seen st) (extracted_refs w fs)))
         \<and> (\<forall>r\<in>set (filter undigested (unseen (st_seen st) (extracted_refs w fs))).
               \<exists>pinned. pinned_reference w r = Inr pinned)"
  using assms
proof (induction fs arbitrary: st)
  case Nil
  then show ?case by (simp add: extracted_refs_def expected_rules_def)
next
  case (Cons f fs)
  from Cons.prems obtain refs where parsed: "ParseFile w f = Inr refs"
    by (cases "ParseFile w f") auto
  from Cons.prems parsed obtain st1 where
    inner: "GeneratePolicy_refs w st refs = (st1, None)" and
    rest: "GeneratePolicy_files w st1 fs = (st', None)"
    by (cases "GeneratePolicy_refs w st refs") (auto split: option.splits)
  note a = refs_ok [OF inner]
  note b = Cons.IH [OF rest]
  have ex: "extracted_refs w (f # fs) = refs @ extracted_refs w fs"
    using parsed by (simp add: extracted_refs_Cons)
  have seen1: "st_seen st1 = st_seen st \<union> Original ` set refs" using a by blast
  show ?case
    unfolding ex unseen_append filter_append map_append expected_rules_append
    using a b parsed unfolding seen1 by (auto simp: Un_assoc image_Un)
qed

lemma files_err:
  assumes "GeneratePolicy_files w st fs = (st', Some e)"
  shows "(\<exists>f\<in>set fs. \<exists>c. ParseFile w f = Inl c \<and> e = ''failed to parse '' @ f @ '': '' @ c)
         \<or> (\<exists>r\<in>set (filter undigested (unseen (st_seen st) (extracted_refs w fs))).
               pinned_reference w r = Inl e)"
  using assms
proof (induction fs arbitrary: st)
  case Nil
  then show ?case by simp
next
  case (Cons f fs)
  show ?case
  proof (cases "ParseFile w f")
    case (Inl c)
    with Cons.prems show ?thesis by auto
  next
    case (Inr refs)
    have ex: "extracted_refs w (f # fs) = refs @ extracted_refs w fs"
      using Inr by (simp add: extracted_refs_Cons)
    obtain st1 res where inner: "GeneratePolicy_refs w st refs = (st1, res)"
      by (cases "GeneratePolicy_refs w st refs") auto
    show ?thesis
    proof (cases res)
      case (Some e1)
      with Cons.prems Inr inner have "e1 = e" by simp
      with refs_err [of w st refs st1 e] inner Some show ?thesis
        unfolding ex unseen_append filter_append by auto
    next
      case None
      with Cons.prems Inr inner have rest: "GeneratePolicy_files w st1 fs = (st', Some e)"
        by simp
      have seen1: "st_seen st1 = st_seen st \<union> Original ` set refs"
        using refs_ok [of w st refs st1] inner None by blast
      from Cons.IH [OF rest] show ?thesis
        unfolding ex unseen_append filter_append seen1 by auto
    qed
  qed
qed

lemma files_calls:
  assumes "GeneratePolicy_files w st fs = (st', res)"
  shows "set (st_calls st') \<subseteq> set (st_calls st) \<union> {c. \<not> is_Digested c}"
  using assms
proof (induction fs arbitrary: st)
  case Nil
  then show ?case by auto
next
  case (Cons f fs)
  show ?case
  proof (cases "ParseFile w f")
    case (Inl c)
    with Cons.prems show ?thesis by auto
  next
    case (Inr refs)
    obtain st1 res1 where inner: "GeneratePolicy_refs w st refs = (st1, res1)"
      by (cases "GeneratePolicy_refs w st refs") auto
    note a = refs_calls [OF inner]
    show ?thesis
    proof (cases res1)
      case (Some e1)
      with Cons.prems Inr inner a show ?thesis by auto
    next
      case None
      with Cons.prems Inr inner have "GeneratePolicy_files w st1 fs = (st', res)" by simp
      from Cons.IH [OF this] a show ?thesis by blast
    qed
  qed
qed

subsection \<open>Whole runs\<close>

lemma GeneratePolicy_cases:
  obtains (ok) st where "GeneratePolicy_files w GeneratePolicy_init fs = (st, None)"
      "GeneratePolicy w fs = (Some (st_pol st), None)"
  | (failed) st e where "GeneratePolicy_files w GeneratePolicy_init fs = (st, Some e)"
      "GeneratePolicy w fs = (None, Some e)"
proof (cases "GeneratePolicy_files w GeneratePolicy_init fs")
  case (Pair st res)
  then show ?thesis
    using ok failed by (cases res) (auto simp: GeneratePolicy_def)
qed

lemma run_ok:
  assumes "GeneratePolicy w fs = (Some p, None)"
  shows "p = expected_rules w (non_skipped w fs)
         \<and> (\<forall>f\<in>set fs. \<exists>refs. ParseFile w f = Inr refs)
         \<and> (\<forall>r\<in>set (non_skipped w fs). \<exists>pinned. pinned_reference w r = Inr pinned)
         \<and> GetDigest_calls w fs = map Ref (non_skipped w fs)"
proof (cases rule: GeneratePolicy_cases [of w fs])
  case (ok st)
  with assms have p: "p = st_pol st" by simp
  from files_ok [OF ok(1)] p ok(1) show ?thesis
    by (simp add: GeneratePolicy_init_def NewPolicy_def unseen_empty non_skipped_def GetDigest_calls_def)
next
  case (failed st e)
  with assms show ?thesis by simp
qed

lemma run_err:
  assumes "GeneratePolicy w fs = (None, Some e)"
  shows "(\<exists>f\<in>set fs. \<exists>c. ParseFile w f = Inl c \<and> e = ''failed to parse '' @ f @ '': '' @ c)
         \<or> (\<exists>r\<in>set (non_skipped w fs). pinned_reference w r = Inl e)"
proof (cases rule: GeneratePolicy_cases [of w fs])
  case (ok st)
  with assms show ?thesis by simp
next
  case (failed st e')
  with assms have "e' = e" by simp
  with files_err [OF failed(1)] show ?thesis
    by (simp add: GeneratePolicy_init_def unseen_empty non_skipped_def)
qed

lemma selectors_expected:
  assumes "\<forall>r\<in>set rs. \<exists>pinned. pinned_reference w r = Inr pinned"
  shows "map selector_identifier (expected_rules w rs) = map (\<lambda>r. image_scheme @ Original r) rs"
  using assms
  by (induction rs) (auto simp: expected_rules_def pin_rule_def)

lemma count_distinct:
  assumes "distinct (map f xs)"
  shows "length (filter (\<lambda>x. f x = a) xs) = (if a \<in> f ` set xs then 1 else 0)"
  using assms by (induction xs) auto

lemma non_skipped_distinct: "distinct (map Original (non_skipped w fs))"
proof -
  have "distinct (map Original (first_seen (extracted_refs w fs)))"
    using unseen_distinct [of "{}"] by (simp add: unseen_empty)
  then show ?thesis
    unfolding non_skipped_def by (simp add: distinct_map_filter)
qed

lemma pinned_reference_contract:
  assumes "digest_contract w" and "pinned_reference w r = Inl e"
  shows "\<exists>c. GetDigest (registry_client w) (Ref r) = Inl c
              \<and> e = ''failed to get digest for '' @ Original r @ '': '' @ c"
proof (cases "GetDigest (registry_client w) (Ref r)")
  case (Inl c)
  with assms(2) show ?thesis by (simp add: pinned_reference_def)
next
  case (Inr d)
  from GetDigest_from_manifest [OF Inr] obtain b where
    "manifest_Digest (registry_client w) b = Inr d" by blast
  with assms(1) obtain d' where d': "digest_Parse w d = Inr d'"
    and wd: "\<forall>x. \<exists>p. WithDigest w x d' = Inr p"
    unfolding digest_contract_def by blast
  from wd obtain p where "WithDigest w (Ref r) d' = Inr p" by blast
  with Inr d' assms(2) show ?thesis by (simp add: pinned_reference_def)
qed

lemma pinned_reference_GetDigest:
  assumes "pinned_reference w r = Inr pinned"
  shows "\<exists>d. GetDigest (registry_client w) (Ref r) = Inr d"
  using assms by (auto simp: pinned_reference_def split: sum.splits)

lemma body_bytes_only:
  assumes "\<forall>s. map_sum id fst (gm s) = map_sum id fst (GetManifest (registry_client w) s)"
  shows "GeneratePolicy_body (w\<lparr>registry_client := (registry_client w)\<lparr>GetManifest := gm\<rparr>\<rparr>) st r
         = GeneratePolicy_body w st r"
  by (simp add: GeneratePolicy_body_def GetDigest_bytes_only [OF assms] Let_def split: sum.splits)

lemma refs_bytes_only:
  assumes "\<forall>s. map_sum id fst (gm s) = map_sum id fst (GetManifest (registry_client w) s)"
  shows "GeneratePolicy_refs (w\<lparr>registry_client := (registry_client w)\<lparr>GetManifest := gm\<rparr>\<rparr>) st rs
         = GeneratePolicy_refs w st rs"
  by (induction rs arbitrary: st) (simp_all add: body_bytes_only [OF assms])

lemma files_bytes_only:
  assumes "\<forall>s. map_sum id fst (gm s) = map_sum id fst (GetManifest (registry_client w) s)"
  shows "GeneratePolicy_files (w\<lparr>registry_client := (registry_client w)\<lparr>GetManifest := gm\<rparr>\<rparr>) st fs
         = GeneratePolicy_files w st fs"
  by (induction fs arbitrary: st)
     (auto simp: refs_bytes_only [OF assms] split: sum.splits prod.splits option.splits)

lemma fixture_run:
  "GeneratePolicy fixture_world [''Dockerfile'', ''ci.Dockerfile''] = (Some fixture_policy, None)"
  by (simp add: fixture_defs run_defs fixture_policy_def pin_rule_def)

lemma fixture_extracted:
  "extracted_refs fixture_world [''Dockerfile'', ''ci.Dockerfile'']
     = [ref_alpine, ref_pinned, ref_alpine, ref_node, ref_node, ref_pinned, ref_alpine]"
  by (simp add: extracted_refs_def fixture_world_def)

lemma fixture_first_seen:
  "first_seen [ref_alpine, ref_pinned, ref_alpine, ref_node, ref_node, ref_pinned, ref_alpine]
     = [ref_alpine, ref_pinned, ref_node]"
  by (simp add: unseen_empty [symmetric] ref_alpine_def ref_pinned_def ref_node_def digest_a_def)

lemma fixture_non_skipped:
  "non_skipped fixture_world [''Dockerfile'', ''ci.Dockerfile''] = [ref_alpine, ref_node]"
  unfolding non_skipped_def fixture_extracted fixture_first_seen
  by (simp add: is_Digested_def ref_alpine_def ref_pinned_def ref_node_def)

lemma fixture_contract: "digest_contract fixture_world"
  by (simp add: digest_contract_def fixture_world_def)


lemma fixture_non_skipped_bad:
  "non_skipped fixture_world [''Dockerfile'', ''bad.Dockerfile''] = [ref_alpine, ref_node, ref_missing]"
proof -
  have "extracted_refs fixture_world [''Dockerfile'', ''bad.Dockerfile'']
        = [ref_alpine, ref_pinned, ref_alpine, ref_node, ref_alpine, ref_missing]"
    by (simp add: extracted_refs_def fixture_world_def)
  moreover have
    "first_seen [ref_alpine, ref_pinned, ref_alpine, ref_node, ref_alpine, ref_missing]
       = [ref_alpine, ref_pinned, ref_node, ref_missing]"
    by (simp add: unseen_empty [symmetric] ref_alpine_def ref_pinned_def ref_node_def
        ref_missing_def digest_a_def)
  ultimately show ?thesis
    unfolding non_skipped_def
    by (simp add: is_Digested_def ref_alpine_def ref_pinned_def ref_node_def ref_missing_def)
qed


section \<open>Pinning: properties of a run\<close>

text \<open>
  Claim C1, as the specification words it, fails: the digest-qualified reference of the
  example occurs twice across the two Dockerfiles and the policy holds no rule for it.
\<close>

theorem digested_duplicate_counterexample:
  "count_list (map Original (extracted_refs fixture_world [''Dockerfile'', ''ci.Dockerfile'']))
     (Original ref_pinned) = 2
   \<and> GeneratePolicy fixture_world [''Dockerfile'', ''ci.Dockerfile''] = (Some fixture_policy, None)
   \<and> length (rules_for (Original ref_pinned) fixture_policy) = 0"
  unfolding fixture_extracted fixture_run
  by (simp add: rules_for_def fixture_policy_def pin_rule_def ref_pinned_def ref_alpine_def
      ref_node_def digest_a_def image_scheme_def)

text \<open>
  Claim C1, amended: in the policy of a run that returns one, the number of rules for a
  reference as written is one when its first occurrence is not digest-qualified, and
  zero otherwise (also when it does not occur); the loop body at a reference whose name
  has been seen returns with the state unchanged and no error.
\<close>

theorem GeneratePolicy_rules_per_original:
  assumes "GeneratePolicy w fs = (Some p, None)"
  shows "length (rules_for original p)
           = (if original \<in> Original ` set (non_skipped w fs) then 1 else 0)
         \<and> (\<forall>st r. Original r \<in> st_seen st \<longrightarrow> GeneratePolicy_body w st r = (st, None))"
proof
  from run_ok [OF assms] have
    p: "p = expected_rules w (non_skipped w fs)" and
    ok: "\<forall>r\<in>set (non_skipped w fs). \<exists>pinned. pinned_reference w r = Inr pinned"
    by blast+
  have "length (rules_for original p)
        = length (filter (\<lambda>s. s = image_scheme @ original) (map selector_identifier p))"
    by (simp add: rules_for_def filter_map comp_def)
  also have "\<dots> = length (filter (\<lambda>r. Original r = original) (non_skipped w fs))"
    unfolding p selectors_expected [OF ok] by (simp add: filter_map comp_def)
  also have "\<dots> = (if original \<in> Original ` set (non_skipped w fs) then 1 else 0)"
    by (rule count_distinct) (rule non_skipped_distinct)
  finally show "length (rules_for original p)
           = (if original \<in> Original ` set (non_skipped w fs) then 1 else 0)" .
  show "\<forall>st r. Original r \<in> st_seen st \<longrightarrow> GeneratePolicy_body w st r = (st, None)"
    by (simp add: body_seen)
qed

theorem GeneratePolicy_rules_per_original_witness:
  "GeneratePolicy fixture_world [''Dockerfile'', ''ci.Dockerfile''] = (Some fixture_policy, None)
   \<and> length (rules_for ''alpine:3.18'' fixture_policy) = 1
   \<and> length (rules_for ''busybox'' fixture_policy) = 0
   \<and> GeneratePolicy_body fixture_world seen_alpine ref_alpine = (seen_alpine, None)"
  using GeneratePolicy_rules_per_original [OF fixture_run, of "''alpine:3.18''"]
    GeneratePolicy_rules_per_original [OF fixture_run, of "''busybox''"]
  unfolding fixture_non_skipped
  by (simp add: fixture_run ref_alpine_def ref_node_def seen_alpine_def)

text \<open>
  Claim C2: in the policy of a run that returns one, the selectors of the rules, in
  order, are those of the non-skipped references: the first occurrences of the names
  across the files in the order supplied, those that carry a digest left out.
\<close>

theorem GeneratePolicy_first_seen_order:
  assumes "GeneratePolicy w fs = (Some p, None)"
  shows "map selector_identifier p = map (\<lambda>r. image_scheme @ Original r) (non_skipped w fs)"
proof -
  from run_ok [OF assms] have
    p: "p = expected_rules w (non_skipped w fs)" and
    ok: "\<forall>r\<in>set (non_skipped w fs). \<exists>pinned. pinned_reference w r = Inr pinned"
    by blast+
  show ?thesis unfolding p by (rule selectors_expected [OF ok])
qed

theorem GeneratePolicy_first_seen_order_witness:
  "GeneratePolicy fixture_world [''Dockerfile'', ''ci.Dockerfile''] = (Some fixture_policy, None)
   \<and> map selector_identifier fixture_policy = [''docker-image://alpine:3.18'', ''docker-image://node'']"
  using GeneratePolicy_first_seen_order [OF fixture_run]
  unfolding fixture_non_skipped
  by (simp add: fixture_run ref_alpine_def ref_node_def image_scheme_def)

text \<open>
  Claim C3: when a Dockerfile fails to parse, or \<open>GetDigest\<close> fails for a non-skipped
  reference, \<open>GeneratePolicy\<close> returns no policy and an error. Under the contract of the
  digest library the error is that of a file that failed to parse, carrying its path,
  or that of a non-skipped reference whose resolution failed, carrying the reference as
  written.
\<close>

theorem GeneratePolicy_no_partial_document:
  assumes "(\<exists>f\<in>set fs. \<exists>c. ParseFile w f = Inl c)
           \<or> (\<exists>r\<in>set (non_skipped w fs). \<exists>c. GetDigest (registry_client w) (Ref r) = Inl c)"
  shows "\<exists>e. GeneratePolicy w fs = (None, Some e)
           \<and> (digest_contract w \<longrightarrow>
                (\<exists>f\<in>set fs. \<exists>c. ParseFile w f = Inl c
                    \<and> e = ''failed to parse '' @ f @ '': '' @ c)
                \<or> (\<exists>r\<in>set (non_skipped w fs). \<exists>c. GetDigest (registry_client w) (Ref r) = Inl c
                    \<and> e = ''failed to get digest for '' @ Original r @ '': '' @ c))"
proof (cases rule: GeneratePolicy_cases [of w fs])
  case (ok st)
  from run_ok [OF ok(2)] have
    parsed: "\<forall>f\<in>set fs. \<exists>refs. ParseFile w f = Inr refs" and
    pinned: "\<forall>r\<in>set (non_skipped w fs). \<exists>pinned. pinned_reference w r = Inr pinned"
    by blast+
  from assms show ?thesis
  proof
    assume "\<exists>f\<in>set fs. \<exists>c. ParseFile w f = Inl c"
    with parsed show ?thesis by fastforce
  next
    assume "\<exists>r\<in>set (non_skipped w fs). \<exists>c. GetDigest (registry_client w) (Ref r) = Inl c"
    then obtain r c where r: "r \<in> set (non_skipped w fs)"
      and c: "GetDigest (registry_client w) (Ref r) = Inl c" by blast
    from pinned r obtain s where "pinned_reference w r = Inr s" by blast
    from pinned_reference_GetDigest [OF this] c show ?thesis by simp
  qed
next
  case (failed st e)
  have "digest_contract w \<longrightarrow>
                (\<exists>f\<in>set fs. \<exists>c. ParseFile w f = Inl c
                    \<and> e = ''failed to parse '' @ f @ '': '' @ c)
                \<or> (\<exists>r\<in>set (non_skipped w fs). \<exists>c. GetDigest (registry_client w) (Ref r) = Inl c
                    \<and> e = ''failed to get digest for '' @ Original r @ '': '' @ c)"
  proof
    assume contract: "digest_contract w"
    from run_err [OF failed(2)] show
      "(\<exists>f\<in>set fs. \<exists>c. ParseFile w f = Inl c \<and> e = ''failed to parse '' @ f @ '': '' @ c)
       \<or> (\<exists>r\<in>set (non_skipped w fs). \<exists>c. GetDigest (registry_client w) (Ref r) = Inl c
             \<and> e = ''failed to get digest for '' @ Original r @ '': '' @ c)"
    proof
      assume "\<exists>f\<in>set fs. \<exists>c. ParseFile w f = Inl c \<and> e = ''failed to parse '' @ f @ '': '' @ c"
      then show ?thesis ..
    next
      assume "\<exists>r\<in>set (non_skipped w fs). pinned_reference w r = Inl e"
      then obtain r where r: "r \<in> set (non_skipped w fs)" and "pinned_reference w r = Inl e"
        by blast
      from pinned_reference_contract [OF contract this(2)] r show ?thesis by blast
    qed
  qed
  with failed(2) show ?thesis by blast
qed

theorem GeneratePolicy_no_partial_document_witness:
  "GeneratePolicy fixture_world [''Dockerfile'', ''bad.Dockerfile'']
     = (None, Some (''failed to get digest for ghcr.io/acme/missing:1: ''
                    @ ''failed to get manifest for ghcr.io/acme/missing:1: manifest unknown''))
   \<and> GeneratePolicy fixture_world [''Dockerfile'', ''lost.Dockerfile'']
     = (None, Some ''failed to parse lost.Dockerfile: no such file'')"
proof
  have "\<exists>r\<in>set (non_skipped fixture_world [''Dockerfile'', ''bad.Dockerfile'']).
          \<exists>c. GetDigest (registry_client fixture_world) (Ref r) = Inl c"
    unfolding fixture_non_skipped_bad by (simp add: fixture_GetDigest_missing)
  then have "(\<exists>f\<in>set [''Dockerfile'', ''bad.Dockerfile'']. \<exists>c. ParseFile fixture_world f = Inl c)
           \<or> (\<exists>r\<in>set (non_skipped fixture_world [''Dockerfile'', ''bad.Dockerfile'']).
                 \<exists>c. GetDigest (registry_client fixture_world) (Ref r) = Inl c)" ..
  from GeneratePolicy_no_partial_document [OF this] fixture_contract
  obtain e where e: "GeneratePolicy fixture_world [''Dockerfile'', ''bad.Dockerfile''] = (None, Some e)"
    and "(\<exists>f\<in>set [''Dockerfile'', ''bad.Dockerfile'']. \<exists>c. ParseFile fixture_world f = Inl c
              \<and> e = ''failed to parse '' @ f @ '': '' @ c)
         \<or> (\<exists>r\<in>set (non_skipped fixture_world [''Dockerfile'', ''bad.Dockerfile'']).
              \<exists>c. GetDigest (registry_client fixture_world) (Ref r) = Inl c
              \<and> e = ''failed to get digest for '' @ Original r @ '': '' @ c)"
    by blast
  then have "e = ''failed to get digest for ghcr.io/acme/missing:1: ''
                 @ ''failed to get manifest for ghcr.io/acme/missing:1: manifest unknown''"
    unfolding fixture_non_skipped_bad
    by (simp add: fixture_GetDigest_alpine fixture_GetDigest_node fixture_GetDigest_missing)
       (simp add: fixture_world_def ref_missing_def)
  with e show "GeneratePolicy fixture_world [''Dockerfile'', ''bad.Dockerfile'']
     = (None, Some (''failed to get digest for ghcr.io/acme/missing:1: ''
                    @ ''failed to get manifest for ghcr.io/acme/missing:1: manifest unknown''))"
    by simp
next
  show "GeneratePolicy fixture_world [''Dockerfile'', ''lost.Dockerfile'']
     = (None, Some ''failed to parse lost.Dockerfile: no such file'')"
    by (simp add: fixture_defs run_defs)
qed

text \<open>
  Claim C4: for a digest-qualified reference the loop body adds no rule and makes no
  call of \<open>GetDigest\<close>, in any state; no call of \<open>GetDigest\<close> in a run is for its parsed
  reference; and when it is the first occurrence of its name, the policy of a run that
  returns one holds no rule for it.
\<close>

theorem GeneratePolicy_skips_digested:
  assumes "is_Digested (Ref r)"
  shows "(\<exists>st'. GeneratePolicy_body w st r = (st', None)
            \<and> st_pol st' = st_pol st \<and> st_calls st' = st_calls st)
         \<and> Ref r \<notin> set (GetDigest_calls w fs)
         \<and> (r \<in> set (first_seen (extracted_refs w fs)) \<longrightarrow>
              (\<forall>p. GeneratePolicy w fs = (Some p, None) \<longrightarrow> rules_for (Original r) p = []))"
proof (intro conjI impI allI)
  show "\<exists>st'. GeneratePolicy_body w st r = (st', None)
            \<and> st_pol st' = st_pol st \<and> st_calls st' = st_calls st"
    using assms by (cases "Original r \<in> st_seen st") (simp_all add: body_seen body_digested)
next
  obtain st' res where "GeneratePolicy_files w GeneratePolicy_init fs = (st', res)"
    by (cases "GeneratePolicy_files w GeneratePolicy_init fs") auto
  from files_calls [OF this] this have "\<forall>c\<in>set (GetDigest_calls w fs). \<not> is_Digested c"
    by (auto simp: GetDigest_calls_def GeneratePolicy_init_def)
  with assms show "Ref r \<notin> set (GetDigest_calls w fs)" by blast
next
  fix p
  assume first: "r \<in> set (first_seen (extracted_refs w fs))"
    and run: "GeneratePolicy w fs = (Some p, None)"
  have "distinct (map Original (first_seen (extracted_refs w fs)))"
    using unseen_distinct [of "{}"] by (simp add: unseen_empty)
  then have inj: "inj_on Original (set (first_seen (extracted_refs w fs)))"
    by (simp add: distinct_map)
  have "Original r \<notin> Original ` set (non_skipped w fs)"
  proof
    assume "Original r \<in> Original ` set (non_skipped w fs)"
    then obtain r' where r': "r' \<in> set (non_skipped w fs)" "Original r' = Original r" by auto
    then have "r' \<in> set (first_seen (extracted_refs w fs))" "\<not> is_Digested (Ref r')"
      by (simp_all add: non_skipped_def)
    with inj first r'(2) have "r' = r" by (auto dest: inj_onD)
    with \<open>\<not> is_Digested (Ref r')\<close> assms show False by simp
  qed
  from run_ok [OF run] have
    p: "p = expected_rules w (non_skipped w fs)" and
    ok: "\<forall>r\<in>set (non_skipped w fs). \<exists>pinned. pinned_reference w r = Inr pinned"
    by blast+
  have "map selector_identifier p = map (\<lambda>r. image_scheme @ Original r) (non_skipped w fs)"
    unfolding p by (rule selectors_expected [OF ok])
  then have sel: "selector_identifier ` set p
                  = (\<lambda>r. image_scheme @ Original r) ` set (non_skipped w fs)"
    by (metis set_map)
  have "selector_identifier rule \<noteq> image_scheme @ Original r" if "rule \<in> set p" for rule
  proof
    assume eq: "selector_identifier rule = image_scheme @ Original r"
    from that sel obtain r' where "r' \<in> set (non_skipped w fs)"
      "selector_identifier rule = image_scheme @ Original r'" by blast
    with eq have "r' \<in> set (non_skipped w fs)" "Original r = Original r'" by simp_all
    then have "Original r \<in> Original ` set (non_skipped w fs)" by (intro image_eqI)
    with \<open>Original r \<notin> Original ` set (non_skipped w fs)\<close> show False by contradiction
  qed
  then show "rules_for (Original r) p = []"
    by (simp add: rules_for_def filter_empty_conv)
qed

theorem GeneratePolicy_skips_digested_witness:
  "is_Digested (Ref ref_pinned)
   \<and> ref_pinned \<in> set (first_seen (extracted_refs fixture_world [''Dockerfile'', ''ci.Dockerfile'']))
   \<and> Ref ref_pinned \<notin> set (GetDigest_calls fixture_world [''Dockerfile'', ''ci.Dockerfile''])
   \<and> rules_for (Original ref_pinned) fixture_policy = []
   \<and> fst (GeneratePolicy_body fixture_world GeneratePolicy_init ref_pinned)
       = GeneratePolicy_init\<lparr>st_seen := {Original ref_pinned}\<rparr>"
proof -
  have d: "is_Digested (Ref ref_pinned)"
    by (simp add: is_Digested_def ref_pinned_def)
  have f: "ref_pinned \<in> set (first_seen (extracted_refs fixture_world [''Dockerfile'', ''ci.Dockerfile'']))"
    unfolding fixture_extracted fixture_first_seen by simp
  from GeneratePolicy_skips_digested [OF d, of fixture_world GeneratePolicy_init
      "[''Dockerfile'', ''ci.Dockerfile'']"] f fixture_run d
  show ?thesis
    by (simp add: body_digested GeneratePolicy_init_def)
qed

text \<open>
  Claim C9: a second run over the same Dockerfiles, against a registry that returns the
  same manifest bytes (or errors) and may report anything else beside them, returns the
  same result as the first; the two policies are written as the same text, which is
  what the encoder yields with empty prefix and an indent of two spaces, appended to
  the writer.
\<close>

theorem GeneratePolicy_WritePolicy_deterministic:
  assumes "\<forall>s. map_sum id fst (gm s) = map_sum id fst (GetManifest (registry_client w) s)"
  shows "GeneratePolicy (w\<lparr>registry_client := (registry_client w)\<lparr>GetManifest := gm\<rparr>\<rparr>) fs
           = GeneratePolicy w fs
         \<and> (\<forall>p1 p2.
              GeneratePolicy (w\<lparr>registry_client := (registry_client w)\<lparr>GetManifest := gm\<rparr>\<rparr>) fs
                = (Some p1, None)
              \<and> GeneratePolicy w fs = (Some p2, None) \<longrightarrow>
                WritePolicy encode out p1 = WritePolicy encode out p2
                \<and> WritePolicy encode out p2
                    = (case encode [] ''  '' p2 of
                         Inl err \<Rightarrow> (out, Some err)
                       | Inr bytes \<Rightarrow> (out @ bytes, None)))"
proof -
  have "GeneratePolicy (w\<lparr>registry_client := (registry_client w)\<lparr>GetManifest := gm\<rparr>\<rparr>) fs
           = GeneratePolicy w fs"
    by (simp add: GeneratePolicy_def files_bytes_only [OF assms])
  then show ?thesis by (auto simp: WritePolicy_def)
qed

theorem GeneratePolicy_WritePolicy_deterministic_witness:
  "GeneratePolicy (fixture_world\<lparr>registry_client :=
        (registry_client fixture_world)\<lparr>GetManifest := fixture_manifests digest_b\<rparr>\<rparr>)
     [''Dockerfile'', ''ci.Dockerfile''] = (Some fixture_policy, None)
   \<and> WritePolicy fixture_encode [] fixture_policy
       = (''  docker-image://alpine:3.18 -> docker-image://docker.io/library/alpine:3.18@'' @ digest_a
          @ [CHR 0x0A]
          @ ''  docker-image://node -> docker-image://docker.io/library/node@'' @ digest_b
          @ [CHR 0x0A], None)"
proof
  have "\<forall>s. map_sum id fst (fixture_manifests digest_b s)
            = map_sum id fst (GetManifest (registry_client fixture_world) s)"
    by (simp add: fixture_world_def fixture_client_def fixture_manifests_def)
  note det = GeneratePolicy_WritePolicy_deterministic [OF this,
      of "[''Dockerfile'', ''ci.Dockerfile'']" fixture_encode "[]"]
  from det [THEN conjunct1] show run2: "GeneratePolicy (fixture_world\<lparr>registry_client :=
        (registry_client fixture_world)\<lparr>GetManifest := fixture_manifests digest_b\<rparr>\<rparr>)
     [''Dockerfile'', ''ci.Dockerfile''] = (Some fixture_policy, None)"
    by (simp only: fixture_run)
  from det [THEN conjunct2, rule_format, of fixture_policy fixture_policy] run2 fixture_run
  have "WritePolicy fixture_encode [] fixture_policy
          = (case fixture_encode [] ''  '' fixture_policy of
               Inl err \<Rightarrow> ([], Some err)
             | Inr bytes \<Rightarrow> ([] @ bytes, None))"
    by blast
  then show "WritePolicy fixture_encode [] fixture_policy
       = (''  docker-image://alpine:3.18 -> docker-image://docker.io/library/alpine:3.18@'' @ digest_a
          @ [CHR 0x0A]
          @ ''  docker-image://node -> docker-image://docker.io/library/node@'' @ digest_b
          @ [CHR 0x0A], None)"
    by (simp add: fixture_encode_def fixture_policy_def pin_rule_def image_scheme_def)
qed


end
